theory Spec2Isabelle
  imports Complex_Main "HOL-Library.Multiset" "HOL-Library.Char_ord" "HOL-Library.List_Lexorder"
begin

section \<open>Data model\<close>

text \<open>
  The program passes JSON-shaped dictionaries around. A raw trade of the brokerage API
  (\<^verbatim>\<open>id\<close>, \<^verbatim>\<open>orderId\<close>, \<^verbatim>\<open>contractId\<close>, \<^verbatim>\<open>side\<close>, \<^verbatim>\<open>size\<close>, \<^verbatim>\<open>price\<close>, \<^verbatim>\<open>fees\<close>,
  \<^verbatim>\<open>creationTimestamp\<close>, \<^verbatim>\<open>profitAndLoss\<close>) is a record with one field per key, typed as
  the API delivers them: \<^verbatim>\<open>side\<close> is the integer code (0 = BUY, 1 = SELL), \<^verbatim>\<open>profitAndLoss\<close>
  is \<open>None\<close> for an opening leg, \<^verbatim>\<open>fees\<close> may be null. A Python \<^verbatim>\<open>float\<close> is modelled by the
  rational number it denotes and float arithmetic by exact arithmetic: rounding error,
  infinities and NaN of binary floating point are outside this model.
\<close>

datatype error = HTTPError | ValueError | TypeError | ZeroDivisionError

record trade =
  t_id :: int
  orderId :: int
  contractId :: string
  t_side :: int
  t_size :: int
  t_price :: rat
  t_fees :: "rat option"
  creationTimestamp :: string
  profitAndLoss :: "rat option"

text \<open>The \<^verbatim>\<open>entry\<close> and \<^verbatim>\<open>exit\<close> sub-dictionaries of a round trip.\<close>

record leg =
  trade_id :: int
  order_id :: int
  timestamp :: string
  price :: rat
  side :: string
  fees :: rat

text \<open>
  The dictionary built by \<^verbatim>\<open>_create_roundtrip\<close>. The display field
  \<^verbatim>\<open>duration_formatted\<close> is a rendering of \<^verbatim>\<open>duration_seconds\<close> as text; it cannot fail, nothing
  reads it back, and it is left out.
\<close>

record roundtrip =
  roundtrip_id :: nat
  contract :: string
  contract_id :: string
  direction :: string
  rt_size :: int
  entry :: leg
  exit :: leg
  pnl :: rat
  total_fees :: rat
  net_pnl :: rat
  points :: rat
  duration_seconds :: int

section \<open>Synchronisation with the Notion database (\<^verbatim>\<open>notion_client.py\<close>)\<close>

text \<open>
  Python renders an integer in an f-string as its decimal numeral, with a leading minus
  sign for negative numbers.
\<close>

fun str_nat :: "nat \<Rightarrow> string" where
  "str_nat n = (if n < 10 then [char_of (48 + n)] else str_nat (n div 10) @ [char_of (48 + n mod 10)])"

declare str_nat.simps [simp del]

definition str_int :: "int \<Rightarrow> string" where
  "str_int i = (if i < 0 then CHR ''-'' # str_nat (nat (- i)) else str_nat (nat i))"

text \<open>
  A page of the database, reduced to the two number properties the client reads back
  (\<^verbatim>\<open>Entry Trade ID\<close>, \<^verbatim>\<open>Exit Trade ID\<close>); \<open>None\<close> is a page whose property is missing or
  null. The database is the list of its pages together with the number of HTTP requests
  it has received. The behaviour of the remote service is a parameter
  \<open>srv :: nat \<Rightarrow> bool\<close>: request number \<open>n\<close> is answered with a success status iff
  \<open>srv n\<close>. Every pattern of failures is some such function.
\<close>

record page =
  entry_trade_id :: "int option"
  exit_trade_id :: "int option"

record notion =
  pages :: "page list"
  requests :: nat

type_synonym server = "nat \<Rightarrow> bool"

record sync_stats =
  created :: nat
  skipped :: nat
  errors :: nat

text \<open>
  \<^verbatim>\<open>query_database\<close>: \<^verbatim>\<open>raise_for_status\<close> raises on a failed response. The pagination
  loop is the service's protocol and is taken as one request.
\<close>

definition query_database :: "server \<Rightarrow> notion \<Rightarrow> (error + page list) \<times> notion" where
  "query_database srv db =
     (if srv (requests db) then (Inr (pages db), db\<lparr>requests := Suc (requests db)\<rparr>)
      else (Inl HTTPError, db\<lparr>requests := Suc (requests db)\<rparr>))"

text \<open>
  The loop body of \<^verbatim>\<open>get_existing_roundtrip_ids\<close>: \<^verbatim>\<open>if entry_id and exit_id\<close> is Python
  truthiness, false for \<^verbatim>\<open>None\<close> and for the number 0.
\<close>

definition page_key :: "page \<Rightarrow> string option" where
  "page_key p =
     (case (entry_trade_id p, exit_trade_id p) of
        (Some a, Some b) \<Rightarrow>
          if a \<noteq> 0 \<and> b \<noteq> 0 then Some (str_int a @ ''-'' @ str_int b) else None
      | _ \<Rightarrow> None)"

fun existing_keys :: "page list \<Rightarrow> string set" where
  "existing_keys [] = {}"
| "existing_keys (p # ps) =
     (case page_key p of None \<Rightarrow> existing_keys ps | Some k \<Rightarrow> insert k (existing_keys ps))"

definition get_existing_roundtrip_ids :: "server \<Rightarrow> notion \<Rightarrow> (error + string set) \<times> notion" where
  "get_existing_roundtrip_ids srv db =
     (case query_database srv db of
        (Inl e, db') \<Rightarrow> (Inl e, db')
      | (Inr ps, db') \<Rightarrow> (Inr (existing_keys ps), db'))"

text \<open>
  \<^verbatim>\<open>create_roundtrip_entry\<close> posts one page whose \<^verbatim>\<open>Entry Trade ID\<close> and \<^verbatim>\<open>Exit Trade ID\<close>
  are the trade ids of the two legs; a failed response raises.
\<close>

definition page_of :: "roundtrip \<Rightarrow> page" where
  "page_of rt = \<lparr>entry_trade_id = Some (trade_id (entry rt)), exit_trade_id = Some (trade_id (exit rt))\<rparr>"

definition create_roundtrip_entry :: "server \<Rightarrow> notion \<Rightarrow> roundtrip \<Rightarrow> (error + unit) \<times> notion" where
  "create_roundtrip_entry srv db rt =
     (if srv (requests db)
      then (Inr (), db\<lparr>pages := pages db @ [page_of rt], requests := Suc (requests db)\<rparr>)
      else (Inl HTTPError, db\<lparr>requests := Suc (requests db)\<rparr>))"

definition unique_key :: "roundtrip \<Rightarrow> string" where
  "unique_key rt = str_int (trade_id (entry rt)) @ ''-'' @ str_int (trade_id (exit rt))"

text \<open>
  The \<^verbatim>\<open>for\<close> loop of \<^verbatim>\<open>sync_roundtrips\<close>; \<^verbatim>\<open>except Exception\<close> catches every failure of
  the create call.
\<close>

fun sync_loop :: "server \<Rightarrow> string set \<Rightarrow> roundtrip list \<Rightarrow> sync_stats \<Rightarrow> notion \<Rightarrow> sync_stats \<times> notion" where
  "sync_loop srv existing_ids [] stats db = (stats, db)"
| "sync_loop srv existing_ids (rt # rts) stats db =
     (if unique_key rt \<in> existing_ids
      then sync_loop srv existing_ids rts (stats\<lparr>skipped := skipped stats + 1\<rparr>) db
      else (case create_roundtrip_entry srv db rt of
              (Inr _, db') \<Rightarrow> sync_loop srv existing_ids rts (stats\<lparr>created := created stats + 1\<rparr>) db'
            | (Inl _, db') \<Rightarrow> sync_loop srv existing_ids rts (stats\<lparr>errors := errors stats + 1\<rparr>) db'))"

definition sync_roundtrips :: "server \<Rightarrow> notion \<Rightarrow> roundtrip list \<Rightarrow> bool \<Rightarrow> (error + sync_stats) \<times> notion" where
  "sync_roundtrips srv db roundtrips skip_existing =
     (let stats = \<lparr>created = 0, skipped = 0, errors = 0\<rparr> in
      if skip_existing then
        (case get_existing_roundtrip_ids srv db of
           (Inl e, db') \<Rightarrow> (Inl e, db')
         | (Inr existing_ids, db') \<Rightarrow>
             (case sync_loop srv existing_ids roundtrips stats db' of (s, db'') \<Rightarrow> (Inr s, db'')))
      else (case sync_loop srv {} roundtrips stats db of (s, db'') \<Rightarrow> (Inr s, db'')))"



text \<open>The round trips for which a create is attempted: those whose key is not in the existing set.\<close>

definition attempted :: "string set \<Rightarrow> roundtrip list \<Rightarrow> roundtrip list" where
  "attempted ex rts = filter (\<lambda>rt. unique_key rt \<notin> ex) rts"

text \<open>A sample round trip and the empty database.\<close>

definition rt0 :: roundtrip where
  "rt0 = \<lparr>roundtrip_id = 1, contract = ''MNQ'', contract_id = ''CON.F.US.MNQ.Z25'', direction = ''LONG'', rt_size = 2,
           entry = \<lparr>trade_id = 1, order_id = 11, timestamp = ''2025-11-04T10:00:00Z'', price = 100,
                    side = ''BUY'', fees = 1 / 2\<rparr>,
           exit = \<lparr>trade_id = 2, order_id = 12, timestamp = ''2025-11-04T10:05:00Z'', price = 105,
                   side = ''SELL'', fees = 1 / 2\<rparr>,
           pnl = 10, total_fees = 1, net_pnl = 9, points = 5, duration_seconds = 300\<rparr>"

definition db0 :: notion where
  "db0 = \<lparr>pages = [], requests = 0\<rparr>"

text \<open>Sample service behaviours and a round trip whose entry trade id is 0.\<close>

definition srv_ok :: server where "srv_ok n = True"
definition srv_fail_at :: "nat \<Rightarrow> server" where "srv_fail_at k n = (n \<noteq> k)"

definition rt_zero :: roundtrip where
  "rt_zero = rt0\<lparr>entry := (entry rt0)\<lparr>trade_id := 0\<rparr>\<rparr>"

section \<open>The periodic scheduler (\<^verbatim>\<open>AutoSyncManager\<close> in \<^verbatim>\<open>main.py\<close>)\<close>

text \<open>
  The fields of the manager object. A \<^verbatim>\<open>datetime\<close> of the local clock is the number of
  microseconds it denotes; \<^verbatim>\<open>thread\<close> holds the identity of the last thread object created
  and \<^verbatim>\<open>stop_event\<close> the flag of the \<^verbatim>\<open>threading.Event\<close>.
\<close>

record auto_sync_manager =
  is_running :: bool
  interval_minutes :: int
  next_sync_time :: "int option"
  thread :: "nat option"
  stop_event :: bool

text \<open>
  \<^verbatim>\<open>_run_loop\<close> runs on a thread of its own, concurrently with the callers of \<^verbatim>\<open>start\<close>,
  \<^verbatim>\<open>stop\<close> and \<^verbatim>\<open>get_remaining_time\<close>. Its control points:
  \<^item> \<open>AtWhile\<close>: about to evaluate the condition of the \<^verbatim>\<open>while\<close>;
  \<^item> \<open>AtAssign\<close>: the condition held, about to assign \<^verbatim>\<open>next_sync_time\<close> and \<^verbatim>\<open>wait_seconds\<close>;
  \<^item> \<open>AtFor k\<close>: \<open>k\<close> iterations of the \<^verbatim>\<open>for\<close> loop are left, about to test the stop event;
  \<^item> \<open>AtSleep k\<close>: inside \<^verbatim>\<open>time.sleep(1)\<close> of an iteration, \<open>k\<close> iterations left after it;
  \<^item> \<open>AtIf\<close>: the wait is over, about to evaluate the \<^verbatim>\<open>if\<close> before the callback;
  \<^item> \<open>AtCallback\<close>: about to call the callback;
  \<^item> \<open>Returned\<close>: the thread has finished.
\<close>

datatype loop_pc = AtWhile | AtAssign | AtFor nat | AtSleep nat | AtIf | AtCallback | Returned

text \<open>
  The scheduler as a whole: the manager object, the control point of every thread started
  so far (the position in the list is the identity of the thread) and the number of times
  the callback has been invoked.
\<close>

record scheduler =
  mgr :: auto_sync_manager
  threads :: "loop_pc list"
  callbacks :: nat

definition init_scheduler :: scheduler where
  "init_scheduler =
     \<lparr>mgr = \<lparr>is_running = False, interval_minutes = 30, next_sync_time = None, thread = None,
              stop_event = False\<rparr>,
      threads = [], callbacks = 0\<rparr>"

definition start :: "int \<Rightarrow> scheduler \<Rightarrow> scheduler" where
  "start interval s =
     (if is_running (mgr s) then s
      else s\<lparr>mgr := (mgr s)\<lparr>interval_minutes := interval, is_running := True, stop_event := False,
                            thread := Some (length (threads s))\<rparr>,
             threads := threads s @ [AtWhile]\<rparr>)"

definition stop :: "scheduler \<Rightarrow> scheduler" where
  "stop s = s\<lparr>mgr := (mgr s)\<lparr>is_running := False, stop_event := True, next_sync_time := None\<rparr>\<rparr>"

text \<open>
  One step of the loop thread at control point \<open>pc\<close>, reading the clock as \<open>now\<close>: the new
  manager, the new control point and whether the callback was invoked.
  \<^verbatim>\<open>timedelta(minutes=m)\<close> is \<open>m * 60000000\<close> microseconds; \<^verbatim>\<open>range(n)\<close> is empty for \<open>n \<le> 0\<close>.
\<close>

fun loop_step :: "int \<Rightarrow> auto_sync_manager \<Rightarrow> loop_pc \<Rightarrow> auto_sync_manager \<times> loop_pc \<times> bool" where
  "loop_step now m AtWhile =
     (if is_running m \<and> \<not> stop_event m then (m, AtAssign, False) else (m, Returned, False))"
| "loop_step now m AtAssign =
     (m\<lparr>next_sync_time := Some (now + interval_minutes m * 60000000)\<rparr>,
      AtFor (nat (interval_minutes m * 60)), False)"
| "loop_step now m (AtFor 0) = (m, AtIf, False)"
| "loop_step now m (AtFor (Suc k)) =
     (if stop_event m then (m, Returned, False) else (m, AtSleep k, False))"
| "loop_step now m (AtSleep k) = (m, AtFor k, False)"
| "loop_step now m AtIf =
     (if is_running m \<and> \<not> stop_event m then (m, AtCallback, False) else (m, AtWhile, False))"
| "loop_step now m AtCallback = (m, AtWhile, True)"
| "loop_step now m Returned = (m, Returned, False)"

text \<open>Thread \<open>i\<close> is scheduled for one step; a thread that does not exist does nothing.\<close>

definition run_loop_step :: "int \<Rightarrow> nat \<Rightarrow> scheduler \<Rightarrow> scheduler" where
  "run_loop_step now i s =
     (if i < length (threads s) then
        (case loop_step now (mgr s) (threads s ! i) of
           (m, pc, called) \<Rightarrow>
             s\<lparr>mgr := m, threads := (threads s)[i := pc],
               callbacks := (if called then Suc (callbacks s) else callbacks s)\<rparr>)
      else s)"

text \<open>
  \<^verbatim>\<open>f"{n:02d}"\<close>: the decimal numeral, padded with zeros on the left to two characters.
\<close>

definition fmt_02d :: "int \<Rightarrow> string" where
  "fmt_02d n = (let s = str_int n in replicate (2 - length s) (CHR ''0'') @ s)"

text \<open>The label returned while a synchronisation is due, as the bytes of its UTF-8 encoding.\<close>

definition syncing_label :: string where
  "syncing_label = [CHR 0xE5, CHR 0x90, CHR 0x8C, CHR 0xE6, CHR 0x9C, CHR 0x9F, CHR 0xE4, CHR 0xB8, CHR 0xAD] @ ''...''"

text \<open>
  \<^verbatim>\<open>get_remaining_time\<close>, with the clock reading \<open>now\<close> of \<^verbatim>\<open>datetime.now()\<close>. The remaining
  time is a whole number of microseconds; \<^verbatim>\<open>total_seconds() // 60\<close> and
  \<^verbatim>\<open>total_seconds() % 60\<close>, truncated by \<^verbatim>\<open>int\<close>, are the minutes and the seconds within the
  minute.
\<close>

definition get_remaining_time :: "auto_sync_manager \<Rightarrow> int \<Rightarrow> string" where
  "get_remaining_time m now =
     (case next_sync_time m of
        None \<Rightarrow> ''--:--''
      | Some t \<Rightarrow>
          (let remaining = t - now in
           if remaining \<le> 0 then syncing_label
           else fmt_02d (remaining div 60000000) @ '':'' @ fmt_02d ((remaining div 1000000) mod 60)))"

text \<open>
  The schedule of the race between \<^verbatim>\<open>stop\<close> and the loop thread: \<^verbatim>\<open>start(1)\<close>; the loop
  thread evaluates the \<^verbatim>\<open>while\<close> condition; \<^verbatim>\<open>stop()\<close>; the loop thread performs its
  assignment at clock reading \<open>now\<close>, then sees the stop event in the \<^verbatim>\<open>for\<close> loop and returns.
\<close>

definition race_schedule :: "int \<Rightarrow> scheduler" where
  "race_schedule now =
     run_loop_step now 0 (run_loop_step now 0 (stop (run_loop_step now 0 (start 1 init_scheduler))))"

section \<open>The matcher (\<^verbatim>\<open>roundtrip_transformer.py\<close>)\<close>

subsection \<open>Timestamps\<close>

text \<open>
  A \<^verbatim>\<open>datetime\<close> is naive or timezone-aware and denotes a number of microseconds on its
  time line. The two functions of the standard library that \<^verbatim>\<open>parse_timestamp\<close> calls are
  parameters of the model: \<open>strptime L ts fmt\<close> and \<open>fromisoformat L ts\<close> are \<open>None\<close> where
  the library raises \<^verbatim>\<open>ValueError\<close>.
\<close>

datatype datetime = Naive int | Aware int

record stdlib =
  strptime :: "string \<Rightarrow> string \<Rightarrow> datetime option"
  fromisoformat :: "string \<Rightarrow> datetime option"

definition formats :: "string list" where
  "formats = [''%Y-%m-%dT%H:%M:%S.%f%z'', ''%Y-%m-%dT%H:%M:%S%z'', ''%Y-%m-%dT%H:%M:%S.%fZ'',
              ''%Y-%m-%dT%H:%M:%SZ'']"

fun try_formats :: "stdlib \<Rightarrow> string list \<Rightarrow> string \<Rightarrow> datetime option" where
  "try_formats L [] ts = None"
| "try_formats L (fmt # fmts) ts =
     (case strptime L ts fmt of Some d \<Rightarrow> Some d | None \<Rightarrow> try_formats L fmts ts)"

text \<open>\<^verbatim>\<open>ts.rsplit('+', 1)[0]\<close> for a string that contains the separator: the part before its last occurrence.\<close>

definition before_last :: "char \<Rightarrow> string \<Rightarrow> string" where
  "before_last c ts = rev (tl (dropWhile (\<lambda>d. d \<noteq> c) (rev ts)))"

definition parse_timestamp :: "stdlib \<Rightarrow> string \<Rightarrow> error + datetime" where
  "parse_timestamp L ts =
     (case try_formats L formats ts of
        Some d \<Rightarrow> Inr d
      | None \<Rightarrow>
          (let ts' = (if CHR ''+'' \<in> set ts then before_last (CHR ''+'') ts
                      else if ts \<noteq> [] \<and> last ts = CHR ''Z'' then butlast ts
                      else ts)
           in case fromisoformat L ts' of Some d \<Rightarrow> Inr d | None \<Rightarrow> Inl ValueError))"

text \<open>
  \<^verbatim>\<open>int((exit_ts - entry_ts).total_seconds())\<close>: subtracting a naive and an aware \<^verbatim>\<open>datetime\<close>
  raises \<^verbatim>\<open>TypeError\<close>; \<^verbatim>\<open>int\<close> truncates the seconds toward zero.
\<close>

definition trunc_seconds :: "int \<Rightarrow> int" where
  "trunc_seconds us = (if 0 \<le> us then us div 1000000 else - ((- us) div 1000000))"

fun duration_between :: "datetime \<Rightarrow> datetime \<Rightarrow> error + int" where
  "duration_between (Naive a) (Naive b) = Inr (trunc_seconds (b - a))"
| "duration_between (Aware a) (Aware b) = Inr (trunc_seconds (b - a))"
| "duration_between _ _ = Inl TypeError"

subsection \<open>Rounding\<close>

text \<open>
  \<^verbatim>\<open>round(x, n)\<close> rounds to \<open>n\<close> decimals, a tie going to the even neighbour.
\<close>

definition round_half_even :: "rat \<Rightarrow> int" where
  "round_half_even r =
     (let f = \<lfloor>r\<rfloor>; d = r - of_int f
      in if d < 1 / 2 then f else if 1 / 2 < d then f + 1 else if even f then f else f + 1)"

definition py_round :: "rat \<Rightarrow> nat \<Rightarrow> rat" where
  "py_round x n = of_int (round_half_even (x * 10 ^ n)) / 10 ^ n"

subsection \<open>Contract symbols\<close>

definition upper_char :: "char \<Rightarrow> char" where
  "upper_char c = (if CHR ''a'' \<le> c \<and> c \<le> CHR ''z'' then char_of (of_char c - (32::nat)) else c)"

fun is_substring :: "string \<Rightarrow> string \<Rightarrow> bool" where
  "is_substring sub [] = (sub = [])"
| "is_substring sub (c # cs) = (take (length sub) (c # cs) = sub \<or> is_substring sub cs)"

fun split_on :: "char \<Rightarrow> string \<Rightarrow> string list" where
  "split_on sep [] = [[]]"
| "split_on sep (c # cs) =
     (if c = sep then [] # split_on sep cs
      else (case split_on sep cs of [] \<Rightarrow> [[c]] | p # ps \<Rightarrow> (c # p) # ps))"

definition known_symbols :: "string list" where
  "known_symbols = [''MNQ'', ''MES'', ''NQ'', ''ES'', ''MCL'', ''MGC'', ''CL'', ''GC'', ''M2K'', ''MYM'']"

definition extract_contract_symbol :: "string \<Rightarrow> string" where
  "extract_contract_symbol cid =
     (case List.find (\<lambda>symbol. is_substring symbol (map upper_char cid)) known_symbols of
        Some symbol \<Rightarrow> symbol
      | None \<Rightarrow>
          (let parts = split_on (CHR ''.'') cid
           in if 4 \<le> length parts then parts ! 3 else cid))"

subsection \<open>Building a round trip\<close>

definition fees_or_zero :: "trade \<Rightarrow> rat" where
  "fees_or_zero t = (case t_fees t of None \<Rightarrow> 0 | Some f \<Rightarrow> f)"

definition side_name :: "int \<Rightarrow> string" where
  "side_name s = (if s = 0 then ''BUY'' else ''SELL'')"

definition leg_of :: "trade \<Rightarrow> leg" where
  "leg_of t = \<lparr>trade_id = t_id t, order_id = orderId t, timestamp = creationTimestamp t,
                  price = t_price t, side = side_name (t_side t), fees = fees_or_zero t\<rparr>"

text \<open>
  \<^verbatim>\<open>_create_roundtrip\<close>, in the order in which the source evaluates: the two timestamps are
  parsed and subtracted first, and \<^verbatim>\<open>float(None)\<close> for a missing profit raises \<^verbatim>\<open>TypeError\<close>.
  Both legs are built the same way, by \<open>leg_of\<close>.
\<close>

definition create_roundtrip :: "stdlib \<Rightarrow> nat \<Rightarrow> string \<Rightarrow> trade \<Rightarrow> trade \<Rightarrow> error + roundtrip" where
  "create_roundtrip L rid cid entry_trade exit_trade =
     (let dir = (if t_side entry_trade = 0 then ''LONG'' else ''SHORT'') in
      case parse_timestamp L (creationTimestamp entry_trade) of
        Inl e \<Rightarrow> Inl e
      | Inr entry_ts \<Rightarrow>
      (case parse_timestamp L (creationTimestamp exit_trade) of
        Inl e \<Rightarrow> Inl e
      | Inr exit_ts \<Rightarrow>
      (case duration_between entry_ts exit_ts of
        Inl e \<Rightarrow> Inl e
      | Inr secs \<Rightarrow>
      (let entry_price = t_price entry_trade;
           exit_price = t_price exit_trade;
           pts = (if dir = ''LONG'' then exit_price - entry_price else entry_price - exit_price);
           entry_fees = fees_or_zero entry_trade;
           exit_fees = fees_or_zero exit_trade;
           tot_fees = entry_fees + exit_fees
       in case profitAndLoss exit_trade of
            None \<Rightarrow> Inl TypeError
          | Some p \<Rightarrow>
              Inr \<lparr>roundtrip_id = rid,
                   contract = extract_contract_symbol cid,
                   contract_id = cid,
                   direction = dir,
                   rt_size = t_size exit_trade,
                   entry = leg_of entry_trade,
                   exit = leg_of exit_trade,
                   pnl = p,
                   total_fees = tot_fees,
                   net_pnl = py_round (p - tot_fees) 2,
                   points = py_round pts 2,
                   duration_seconds = secs\<rparr>))))"

subsection \<open>Matching\<close>

text \<open>
  \<^verbatim>\<open>_find_matching_entry\<close>: the first entry of the queue on the other side and of the same
  size is popped; the result is that entry with the queue that is left, or \<open>None\<close> with the
  queue untouched.
\<close>

definition matches :: "trade \<Rightarrow> trade \<Rightarrow> bool" where
  "matches exit_trade e = (t_side e \<noteq> t_side exit_trade \<and> t_size e = t_size exit_trade)"

fun find_matching_entry :: "trade list \<Rightarrow> trade \<Rightarrow> (trade \<times> trade list) option" where
  "find_matching_entry [] exit_trade = None"
| "find_matching_entry (e # queue) exit_trade =
     (if matches exit_trade e then Some (e, queue)
      else (case find_matching_entry queue exit_trade of
              None \<Rightarrow> None
            | Some (m, queue') \<Rightarrow> Some (m, e # queue')))"

text \<open>
  The choice of the entry for an exit inside the loop of \<^verbatim>\<open>transform\<close>, for a queue that is
  not empty: the matching entry if there is one, else \<^verbatim>\<open>entry_queue.pop(0)\<close>.
\<close>

fun take_entry :: "trade list \<Rightarrow> trade \<Rightarrow> trade \<times> trade list" where
  "take_entry queue exit_trade =
     (case find_matching_entry queue exit_trade of
        Some r \<Rightarrow> r
      | None \<Rightarrow> (hd queue, tl queue))"

text \<open>The three result lists of the transformer object.\<close>

record transformer =
  roundtrips :: "roundtrip list"
  open_positions :: "trade list"
  unmatched_exits :: "trade list"

text \<open>
  The loop over the exits of one contract. It carries the entry queue, the counter
  \<^verbatim>\<open>roundtrip_id\<close> and the transformer; an exception of \<^verbatim>\<open>_create_roundtrip\<close> ends it.
\<close>

fun exits_loop ::
  "stdlib \<Rightarrow> string \<Rightarrow> trade list \<Rightarrow> trade list \<Rightarrow> nat \<Rightarrow> transformer
     \<Rightarrow> error + (trade list \<times> nat \<times> transformer)" where
  "exits_loop L cid [] queue rid T = Inr (queue, rid, T)"
| "exits_loop L cid (exit_trade # exits) queue rid T =
     (if queue = [] then
        exits_loop L cid exits queue rid (T\<lparr>unmatched_exits := unmatched_exits T @ [exit_trade]\<rparr>)
      else
        (case take_entry queue exit_trade of
           (entry_trade, queue') \<Rightarrow>
             (case create_roundtrip L (Suc rid) cid entry_trade exit_trade of
                Inl e \<Rightarrow> Inl e
              | Inr rt \<Rightarrow>
                  exits_loop L cid exits queue' (Suc rid) (T\<lparr>roundtrips := roundtrips T @ [rt]\<rparr>))))"

text \<open>
  \<^verbatim>\<open>trades_by_contract\<close>: a dictionary keeps its keys in the order of their first insertion,
  and each list keeps the input order.
\<close>

fun add_trade :: "trade \<Rightarrow> (string \<times> trade list) list \<Rightarrow> (string \<times> trade list) list" where
  "add_trade t [] = [(contractId t, [t])]"
| "add_trade t ((c, ts) # groups) =
     (if c = contractId t then (c, ts @ [t]) # groups else (c, ts) # add_trade t groups)"

definition trades_by_contract :: "trade list \<Rightarrow> (string \<times> trade list) list" where
  "trades_by_contract trades = foldl (\<lambda>groups t. add_trade t groups) [] trades"

definition is_entry :: "trade \<Rightarrow> bool" where
  "is_entry t = (profitAndLoss t = None)"

text \<open>The loop over the contracts; \<^verbatim>\<open>list.sort\<close> is stable, as \<open>sort_key\<close> is.\<close>

fun contracts_loop ::
  "stdlib \<Rightarrow> (string \<times> trade list) list \<Rightarrow> nat \<Rightarrow> transformer \<Rightarrow> error + (nat \<times> transformer)" where
  "contracts_loop L [] rid T = Inr (rid, T)"
| "contracts_loop L ((cid, contract_trades) # groups) rid T =
     (let sorted_trades = sort_key creationTimestamp contract_trades;
          entries = filter is_entry sorted_trades;
          exits = filter (\<lambda>t. \<not> is_entry t) sorted_trades
      in case exits_loop L cid exits entries rid T of
           Inl e \<Rightarrow> Inl e
         | Inr (queue, rid', T') \<Rightarrow>
             contracts_loop L groups rid' (T'\<lparr>open_positions := open_positions T' @ queue\<rparr>))"

definition transform :: "stdlib \<Rightarrow> trade list \<Rightarrow> error + transformer" where
  "transform L trades =
     (case contracts_loop L (trades_by_contract trades) 0
             \<lparr>roundtrips = [], open_positions = [], unmatched_exits = []\<rparr> of
        Inl e \<Rightarrow> Inl e
      | Inr (rid, T) \<Rightarrow>
          Inr (T\<lparr>roundtrips := sort_key (\<lambda>rt. timestamp (exit rt)) (roundtrips T)\<rparr>))"

text \<open>
  Where the legs end up. A closing leg is recorded as the \<^verbatim>\<open>exit\<close> of a round trip or in
  \<^verbatim>\<open>unmatched_exits\<close>; an opening leg as the \<^verbatim>\<open>entry\<close> of a round trip or in
  \<^verbatim>\<open>open_positions\<close>. Multisets count every occurrence.
\<close>

definition closing_legs :: "transformer \<Rightarrow> leg multiset" where
  "closing_legs T = image_mset exit (mset (roundtrips T)) + image_mset leg_of (mset (unmatched_exits T))"

definition opening_legs :: "transformer \<Rightarrow> leg multiset" where
  "opening_legs T = image_mset entry (mset (roundtrips T)) + image_mset leg_of (mset (open_positions T))"

text \<open>
  The timestamp of a trade parses to an aware (\<open>aware = True\<close>) or to a naive
  (\<open>aware = False\<close>) \<^verbatim>\<open>datetime\<close>.
\<close>

definition parses_as :: "stdlib \<Rightarrow> bool \<Rightarrow> trade \<Rightarrow> bool" where
  "parses_as L aware t =
     (case parse_timestamp L (creationTimestamp t) of
        Inl _ \<Rightarrow> False
      | Inr (Naive _) \<Rightarrow> \<not> aware
      | Inr (Aware _) \<Rightarrow> aware)"

subsection \<open>Sample data\<close>

text \<open>
  What the standard library returns on the timestamps of the samples: the format with
  \<^verbatim>\<open>%z\<close> and no fraction accepts them, \<^verbatim>\<open>Z\<close> being read as UTC. The values are microseconds
  counted from the first of them.
\<close>

definition sample_strptime :: "string \<Rightarrow> string \<Rightarrow> datetime option" where
  "sample_strptime ts fmt =
     (if fmt = ''%Y-%m-%dT%H:%M:%S%z'' then
        map_of [(''2025-11-04T10:00:00Z'', Aware 0),
                (''2025-11-04T10:05:00Z'', Aware 300000000),
                (''2025-11-04T10:07:00Z'', Aware 420000000),
                (''2025-11-04T10:09:00Z'', Aware 540000000)] ts
      else None)"

definition sample_fromisoformat :: "string \<Rightarrow> datetime option" where
  "sample_fromisoformat ts = None"

definition sample_lib :: stdlib where
  "sample_lib = \<lparr>strptime = sample_strptime, fromisoformat = sample_fromisoformat\<rparr>"

definition entry1 :: trade where
  "entry1 = \<lparr>t_id = 1, orderId = 11, contractId = ''CON.F.US.MNQ.Z25'', t_side = 0, t_size = 2,
             t_price = 100, t_fees = Some (1 / 2), creationTimestamp = ''2025-11-04T10:00:00Z'',
             profitAndLoss = None\<rparr>"

definition exit1 :: trade where
  "exit1 = \<lparr>t_id = 2, orderId = 12, contractId = ''CON.F.US.MNQ.Z25'', t_side = 1, t_size = 2,
            t_price = 105, t_fees = Some (1 / 2), creationTimestamp = ''2025-11-04T10:05:00Z'',
            profitAndLoss = Some 10\<rparr>"

definition entry2 :: trade where
  "entry2 = \<lparr>t_id = 3, orderId = 13, contractId = ''CON.F.US.MNQ.Z25'', t_side = 1, t_size = 1,
             t_price = 106, t_fees = None, creationTimestamp = ''2025-11-04T10:07:00Z'',
             profitAndLoss = None\<rparr>"

definition exit2 :: trade where
  "exit2 = \<lparr>t_id = 4, orderId = 14, contractId = ''CON.F.US.MES.Z25'', t_side = 0, t_size = 1,
            t_price = 5000, t_fees = None, creationTimestamp = ''2025-11-04T10:09:00Z'',
            profitAndLoss = Some (- 5)\<rparr>"

section \<open>The aggregator (\<^verbatim>\<open>get_statistics\<close>)\<close>

text \<open>
  The entries of the dictionaries built by \<^verbatim>\<open>_group_stats\<close> and the dictionary returned by
  \<^verbatim>\<open>get_statistics\<close>. \<^verbatim>\<open>avg_duration_formatted\<close>, the text rendering of
  \<^verbatim>\<open>avg_duration_seconds\<close>, is left out. The keys \<^verbatim>\<open>total_fees\<close>, \<^verbatim>\<open>open_positions\<close> and
  \<^verbatim>\<open>unmatched_exits\<close> carry the prefix \<open>stat_\<close> here.
\<close>

record group_tally =
  g_count :: nat
  g_pnl :: rat
  g_wins :: nat
  g_losses :: nat

record statistics =
  total_roundtrips :: nat
  winning_trades :: nat
  losing_trades :: nat
  breakeven_trades :: nat
  win_rate :: rat
  total_pnl :: rat
  stat_total_fees :: rat
  total_net_pnl :: rat
  avg_win :: rat
  avg_loss :: rat
  profit_factor :: rat
  max_win :: rat
  max_loss :: rat
  avg_duration_seconds :: int
  by_contract :: "(string \<times> group_tally) list"
  by_direction :: "(string \<times> group_tally) list"
  stat_open_positions :: nat
  stat_unmatched_exits :: nat

text \<open>
  Python's \<^verbatim>\<open>/\<close> raises \<^verbatim>\<open>ZeroDivisionError\<close> on a zero divisor, and \<^verbatim>\<open>max\<close> and \<^verbatim>\<open>min\<close> raise
  \<^verbatim>\<open>ValueError\<close> on an empty sequence; \<^verbatim>\<open>int\<close> truncates toward zero.
\<close>

definition truediv :: "rat \<Rightarrow> rat \<Rightarrow> error + rat" where
  "truediv a b = (if b = 0 then Inl ZeroDivisionError else Inr (a / b))"

fun py_max :: "rat list \<Rightarrow> error + rat" where
  "py_max [] = Inl ValueError"
| "py_max (x # xs) = Inr (foldl max x xs)"

fun py_min :: "rat list \<Rightarrow> error + rat" where
  "py_min [] = Inl ValueError"
| "py_min (x # xs) = Inr (foldl min x xs)"

definition py_int :: "rat \<Rightarrow> int" where
  "py_int r = (if 0 \<le> r then \<lfloor>r\<rfloor> else \<lceil>r\<rceil>)"

definition bind_err :: "error + 'a \<Rightarrow> ('a \<Rightarrow> error + 'b) \<Rightarrow> error + 'b" where
  "bind_err m f = (case m of Inl e \<Rightarrow> Inl e | Inr v \<Rightarrow> f v)"

text \<open>\<^verbatim>\<open>_group_stats\<close>: the groups appear in the order in which their keys are first met.\<close>

definition tally :: "rat \<Rightarrow> group_tally \<Rightarrow> group_tally" where
  "tally p g =
     (let g1 = g\<lparr>g_count := g_count g + 1, g_pnl := g_pnl g + p\<rparr>
      in if 0 < p then g1\<lparr>g_wins := g_wins g1 + 1\<rparr>
         else if p < 0 then g1\<lparr>g_losses := g_losses g1 + 1\<rparr>
         else g1)"

fun tally_group :: "string \<Rightarrow> rat \<Rightarrow> (string \<times> group_tally) list \<Rightarrow> (string \<times> group_tally) list" where
  "tally_group k p [] = [(k, tally p \<lparr>g_count = 0, g_pnl = 0, g_wins = 0, g_losses = 0\<rparr>)]"
| "tally_group k p ((k', g) # groups) =
     (if k' = k then (k', tally p g) # groups else (k', g) # tally_group k p groups)"

definition group_stats :: "(roundtrip \<Rightarrow> string) \<Rightarrow> roundtrip list \<Rightarrow> (string \<times> group_tally) list" where
  "group_stats group_key rts = foldl (\<lambda>groups rt. tally_group (group_key rt) (pnl rt) groups) [] rts"

definition winners :: "roundtrip list \<Rightarrow> roundtrip list" where
  "winners rts = filter (\<lambda>rt. 0 < pnl rt) rts"

definition losers :: "roundtrip list \<Rightarrow> roundtrip list" where
  "losers rts = filter (\<lambda>rt. pnl rt < 0) rts"

definition breakeven :: "roundtrip list \<Rightarrow> roundtrip list" where
  "breakeven rts = filter (\<lambda>rt. pnl rt = 0) rts"

definition sum_pnl :: "roundtrip list \<Rightarrow> rat" where
  "sum_pnl rts = sum_list (map pnl rts)"

definition gross_profit :: "roundtrip list \<Rightarrow> rat" where
  "gross_profit rts = sum_pnl (winners rts)"

definition gross_loss :: "roundtrip list \<Rightarrow> rat" where
  "gross_loss rts = \<bar>sum_pnl (losers rts)\<bar>"

text \<open>
  \<^verbatim>\<open>get_statistics\<close>. The empty dictionary that is returned when there are no round trips is
  \<open>None\<close>. The divisions are made in the order of the source.
\<close>

definition get_statistics :: "transformer \<Rightarrow> error + statistics option" where
  "get_statistics T =
     (let rts = roundtrips T in
      if rts = [] then Inr None
      else
        (let total = length rts;
             tot_pnl = sum_pnl rts;
             tot_fees = sum_list (map total_fees rts)
         in
         bind_err (if winners rts \<noteq> [] then truediv (sum_pnl (winners rts)) (of_nat (length (winners rts)))
                   else Inr 0) (\<lambda>a_win.
         bind_err (if losers rts \<noteq> [] then truediv (sum_pnl (losers rts)) (of_nat (length (losers rts)))
                   else Inr 0) (\<lambda>a_loss.
         bind_err (if 0 < gross_loss rts
                   then bind_err (truediv (gross_profit rts) (gross_loss rts)) (\<lambda>q. Inr (py_round q 2))
                   else Inr 0) (\<lambda>pf.
         bind_err (truediv (of_int (sum_list (map duration_seconds rts))) (of_nat total)) (\<lambda>avg_duration.
         bind_err (truediv (of_nat (length (winners rts))) (of_nat total)) (\<lambda>win_ratio.
         bind_err (py_max (map pnl rts)) (\<lambda>mx.
         bind_err (py_min (map pnl rts)) (\<lambda>mn.
           Inr (Some
             \<lparr>total_roundtrips = total,
              winning_trades = length (winners rts),
              losing_trades = length (losers rts),
              breakeven_trades = length (breakeven rts),
              win_rate = py_round (win_ratio * 100) 1,
              total_pnl = py_round tot_pnl 2,
              stat_total_fees = py_round tot_fees 2,
              total_net_pnl = py_round (tot_pnl - tot_fees) 2,
              avg_win = py_round a_win 2,
              avg_loss = py_round a_loss 2,
              profit_factor = pf,
              max_win = py_round mx 2,
              max_loss = py_round mn 2,
              avg_duration_seconds = py_int avg_duration,
              by_contract = group_stats contract rts,
              by_direction = group_stats direction rts,
              stat_open_positions = length (open_positions T),
              stat_unmatched_exits = length (unmatched_exits T)\<rparr>))))))))))"

text \<open>The statistics with every field zero and no groups, as the documentation of the aggregator describes the result for no round trips.\<close>

definition zero_statistics :: statistics where
  "zero_statistics =
     \<lparr>total_roundtrips = 0, winning_trades = 0, losing_trades = 0, breakeven_trades = 0,
      win_rate = 0, total_pnl = 0, stat_total_fees = 0, total_net_pnl = 0, avg_win = 0, avg_loss = 0,
      profit_factor = 0, max_win = 0, max_loss = 0, avg_duration_seconds = 0, by_contract = [],
      by_direction = [], stat_open_positions = 0, stat_unmatched_exits = 0\<rparr>"

definition empty_transformer :: transformer where
  "empty_transformer = \<lparr>roundtrips = [], open_positions = [], unmatched_exits = []\<rparr>"




section \<open>Properties of the synchronisation\<close>

lemma sync_loop_total:
  "created (fst (sync_loop srv ex rts s db)) + skipped (fst (sync_loop srv ex rts s db))
     + errors (fst (sync_loop srv ex rts s db))
   = created s + skipped s + errors s + length rts"
proof (induction rts arbitrary: s db)
  case Nil
  show ?case by simp
next
  case (Cons rt rts)
  show ?case
  proof (cases "unique_key rt \<in> ex")
    case True
    then show ?thesis by (simp add: Cons.IH)
  next
    case False
    then show ?thesis
      by (cases "create_roundtrip_entry srv db rt") (auto simp: Cons.IH split: sum.splits)
  qed
qed


lemma create_requests:
  "requests (snd (create_roundtrip_entry srv db rt)) = Suc (requests db)"
  by (simp add: create_roundtrip_entry_def)

lemma upt_head: "[r ..< Suc (r + m)] = r # [Suc r ..< Suc (r + m)]"
  by (subst upt_rec) simp

lemma sync_loop_counts:
  "skipped (fst (sync_loop srv ex rts s db)) = skipped s + length (filter (\<lambda>rt. unique_key rt \<in> ex) rts)
   \<and> created (fst (sync_loop srv ex rts s db))
       = created s + length (filter srv [requests db ..< requests db + length (attempted ex rts)])
   \<and> errors (fst (sync_loop srv ex rts s db))
       = errors s + length (filter (\<lambda>n. \<not> srv n) [requests db ..< requests db + length (attempted ex rts)])
   \<and> requests (snd (sync_loop srv ex rts s db)) = requests db + length (attempted ex rts)"
proof (induction rts arbitrary: s db)
  case Nil
  show ?case by (simp add: attempted_def)
next
  case (Cons rt rts)
  show ?case
  proof (cases "unique_key rt \<in> ex")
    case True
    then show ?thesis using Cons.IH [of "s\<lparr>skipped := skipped s + 1\<rparr>" db]
      by (simp add: attempted_def)
  next
    case False
    show ?thesis
    proof (cases "srv (requests db)")
      case True
      let ?db = "db\<lparr>pages := pages db @ [page_of rt], requests := Suc (requests db)\<rparr>"
      have c: "create_roundtrip_entry srv db rt = (Inr (), ?db)"
        using True by (simp add: create_roundtrip_entry_def)
      show ?thesis
        using Cons.IH [of "s\<lparr>created := created s + 1\<rparr>" ?db] False True
        by (simp add: c attempted_def upt_head del: upt_Suc)
    next
      case F: False
      let ?db = "db\<lparr>requests := Suc (requests db)\<rparr>"
      have c: "create_roundtrip_entry srv db rt = (Inl HTTPError, ?db)"
        using F by (simp add: create_roundtrip_entry_def)
      show ?thesis
        using Cons.IH [of "s\<lparr>errors := errors s + 1\<rparr>" ?db] False F
        by (simp add: c attempted_def upt_head del: upt_Suc)
    qed
  qed
qed

lemma existing_keys_iff: "k \<in> existing_keys ps \<longleftrightarrow> (\<exists>p \<in> set ps. page_key p = Some k)"
  by (induction ps) (auto split: option.splits)

lemma page_key_page_of:
  "trade_id (entry rt) \<noteq> 0 \<Longrightarrow> trade_id (exit rt) \<noteq> 0 \<Longrightarrow> page_key (page_of rt) = Some (unique_key rt)"
  by (simp add: page_key_def page_of_def unique_key_def)

lemma sync_loop_pages_mono: "set (pages db) \<subseteq> set (pages (snd (sync_loop srv ex rts s db)))"
proof (induction rts arbitrary: s db)
  case Nil
  show ?case by simp
next
  case (Cons rt rts)
  show ?case
  proof (cases "unique_key rt \<in> ex")
    case True
    then show ?thesis using Cons.IH by simp
  next
    case False
    show ?thesis
    proof (cases "srv (requests db)")
      case True
      let ?db = "db\<lparr>pages := pages db @ [page_of rt], requests := Suc (requests db)\<rparr>"
      have "set (pages ?db) \<subseteq> set (pages (snd (sync_loop srv ex rts (s\<lparr>created := created s + 1\<rparr>) ?db)))"
        by (rule Cons.IH)
      then show ?thesis using False True by (auto simp: create_roundtrip_entry_def)
    next
      case F: False
      let ?db = "db\<lparr>requests := Suc (requests db)\<rparr>"
      have "set (pages ?db) \<subseteq> set (pages (snd (sync_loop srv ex rts (s\<lparr>errors := errors s + 1\<rparr>) ?db)))"
        by (rule Cons.IH)
      then show ?thesis using False F by (auto simp: create_roundtrip_entry_def)
    qed
  qed
qed

lemma sync_loop_errors_lower:
  "errors s + length (filter (\<lambda>rt. unique_key rt \<notin> ex \<and> page_of rt \<notin> set (pages (snd (sync_loop srv ex rts s db)))) rts)
     \<le> errors (fst (sync_loop srv ex rts s db))"
proof (induction rts arbitrary: s db)
  case Nil
  show ?case by simp
next
  case (Cons rt rts)
  show ?case
  proof (cases "unique_key rt \<in> ex")
    case True
    then show ?thesis using Cons.IH [of "s\<lparr>skipped := skipped s + 1\<rparr>" db] by simp
  next
    case False
    show ?thesis
    proof (cases "srv (requests db)")
      case True
      let ?db = "db\<lparr>pages := pages db @ [page_of rt], requests := Suc (requests db)\<rparr>"
      let ?s = "s\<lparr>created := created s + 1\<rparr>"
      have c: "create_roundtrip_entry srv db rt = (Inr (), ?db)"
        using True by (simp add: create_roundtrip_entry_def)
      have "page_of rt \<in> set (pages ?db)" by simp
      then have m: "page_of rt \<in> set (pages (snd (sync_loop srv ex rts ?s ?db)))"
        using sync_loop_pages_mono [of ?db srv ex rts ?s] by blast
      show ?thesis
        using Cons.IH [of ?s ?db] False m by (simp add: c)
    next
      case F: False
      let ?db = "db\<lparr>requests := Suc (requests db)\<rparr>"
      let ?s = "s\<lparr>errors := errors s + 1\<rparr>"
      have c: "create_roundtrip_entry srv db rt = (Inl HTTPError, ?db)"
        using F by (simp add: create_roundtrip_entry_def)
      show ?thesis
        using Cons.IH [of ?s ?db] False by (simp add: c)
    qed
  qed
qed

lemma sync_roundtrips_True_SomeD:
  assumes "sync_roundtrips srv db rts True = (Inr s, db')"
  shows "srv (requests db) \<and> sync_loop srv (existing_keys (pages db)) rts \<lparr>created = 0, skipped = 0, errors = 0\<rparr>
           (db\<lparr>requests := Suc (requests db)\<rparr>) = (s, db')"
proof (cases "srv (requests db)")
  case True
  have q: "get_existing_roundtrip_ids srv db = (Inr (existing_keys (pages db)), db\<lparr>requests := Suc (requests db)\<rparr>)"
    using True by (simp add: get_existing_roundtrip_ids_def query_database_def)
  obtain s0 d0 where l: "sync_loop srv (existing_keys (pages db)) rts \<lparr>created = 0, skipped = 0, errors = 0\<rparr>
           (db\<lparr>requests := Suc (requests db)\<rparr>) = (s0, d0)"
    by (cases "sync_loop srv (existing_keys (pages db)) rts \<lparr>created = 0, skipped = 0, errors = 0\<rparr>
           (db\<lparr>requests := Suc (requests db)\<rparr>)") blast
  have "sync_roundtrips srv db rts True = (Inr s0, d0)"
    by (simp add: sync_roundtrips_def q l)
  with assms have "s0 = s" "d0 = db'" by simp_all
  with l True show ?thesis by simp
next
  case False
  then have "sync_roundtrips srv db rts True = (Inl HTTPError, db\<lparr>requests := Suc (requests db)\<rparr>)"
    by (simp add: sync_roundtrips_def get_existing_roundtrip_ids_def query_database_def)
  with assms show ?thesis by simp
qed

lemma length_filter_mono:
  "(\<And>x. x \<in> set xs \<Longrightarrow> P x \<Longrightarrow> Q x) \<Longrightarrow> length (filter P xs) \<le> length (filter Q xs)"
  by (induction xs) auto

lemma key_rt0: "unique_key rt0 = ''1-2''"
  by code_simp

lemma key_rt_zero: "unique_key rt_zero = ''0-2''"
  by code_simp

lemma page_key_rt0: "page_key (page_of rt0) = Some ''1-2''"
  by code_simp

lemma page_key_rt_zero: "page_key (page_of rt_zero) = None"
  by code_simp



text \<open>
  C10. Whenever a call of \<^verbatim>\<open>sync_roundtrips\<close> returns its statistics (the existence query,
  if made, succeeded), the three counters add up to the number of round trips given;
  the counters are natural numbers, so none is negative.
\<close>

theorem sync_counts_partition:
  assumes "sync_roundtrips srv db rts skip = (Inr s, db')"
  shows "created s + skipped s + errors s = length rts \<and> 0 \<le> created s \<and> 0 \<le> skipped s \<and> 0 \<le> errors s"
proof -
  let ?z = "\<lparr>created = 0, skipped = 0, errors = 0\<rparr>"
  have "\<exists>ex db1. s = fst (sync_loop srv ex rts ?z db1)"
  proof (cases skip)
    case True
    with assms obtain ex db1 where "sync_loop srv ex rts ?z db1 = (s, db')"
      by (auto simp: sync_roundtrips_def Let_def split: prod.splits sum.splits)
    then have "s = fst (sync_loop srv ex rts ?z db1)" by simp
    then show ?thesis by blast
  next
    case False
    with assms have "sync_loop srv {} rts ?z db = (s, db')"
      by (auto simp: sync_roundtrips_def Let_def split: prod.splits)
    then have "s = fst (sync_loop srv {} rts ?z db)" by simp
    then show ?thesis by blast
  qed
  then obtain ex db1 where "s = fst (sync_loop srv ex rts ?z db1)"
    by blast
  then show ?thesis
    using sync_loop_total [of srv ex rts ?z db1] by simp
qed

theorem sync_counts_partition_witness:
  "sync_roundtrips srv_ok db0 [rt0] True
     = (Inr \<lparr>created = 1, skipped = 0, errors = 0\<rparr>, \<lparr>pages = [page_of rt0], requests = 2\<rparr>)
   \<and> created \<lparr>created = 1, skipped = 0, errors = 0\<rparr> + skipped \<lparr>created = 1, skipped = 0, errors = 0\<rparr>
       + errors \<lparr>created = 1, skipped = 0, errors = 0\<rparr> = length [rt0]"
proof -
  have run: "sync_roundtrips srv_ok db0 [rt0] True
     = (Inr \<lparr>created = 1, skipped = 0, errors = 0\<rparr>, \<lparr>pages = [page_of rt0], requests = 2\<rparr>)"
    by (simp add: sync_roundtrips_def get_existing_roundtrip_ids_def query_database_def db0_def
        create_roundtrip_entry_def srv_ok_def)
  show ?thesis
    using run sync_counts_partition [OF run] by simp
qed

text \<open>
  C4 (as amended). Run \<^verbatim>\<open>sync_roundtrips\<close> twice with \<^verbatim>\<open>skip_existing=True\<close> on the same round
  trips, the second run on the database the first one left (the service may answer
  differently in the two runs). If no round trip has a trade id equal to 0, then the second
  run attempts a create only for round trips that the first run counted as errors: its
  \<open>created + errors\<close> is at most the first run's \<open>errors\<close>, and everything the first run
  created or skipped is skipped. In particular, after a first run without errors the second
  run creates nothing and skips every round trip.
\<close>

theorem sync_rerun:
  assumes ids: "\<forall>rt \<in> set rts. trade_id (entry rt) \<noteq> 0 \<and> trade_id (exit rt) \<noteq> 0"
    and run1: "sync_roundtrips srv db rts True = (Inr s1, db1)"
    and run2: "sync_roundtrips srv' db1 rts True = (Inr s2, db2)"
  shows "created s2 + errors s2 \<le> errors s1
       \<and> skipped s1 + created s1 \<le> skipped s2
       \<and> (errors s1 = 0 \<longrightarrow> created s2 = 0 \<and> skipped s2 = length rts)"
proof -
  let ?z = "\<lparr>created = 0, skipped = 0, errors = 0\<rparr>"
  let ?ex1 = "existing_keys (pages db)" and ?ex2 = "existing_keys (pages db1)"
  let ?dbq = "db\<lparr>requests := Suc (requests db)\<rparr>" and ?dbq1 = "db1\<lparr>requests := Suc (requests db1)\<rparr>"
  have l1: "sync_loop srv ?ex1 rts ?z ?dbq = (s1, db1)"
    using sync_roundtrips_True_SomeD [OF run1] by simp
  have l2: "sync_loop srv' ?ex2 rts ?z ?dbq1 = (s2, db2)"
    using sync_roundtrips_True_SomeD [OF run2] by simp
  have e1: "length (filter (\<lambda>rt. unique_key rt \<notin> ?ex1 \<and> page_of rt \<notin> set (pages db1)) rts) \<le> errors s1"
    using sync_loop_errors_lower [of ?z ?ex1 srv rts ?dbq] by (simp add: l1)
  have mono: "set (pages db) \<subseteq> set (pages db1)"
    using sync_loop_pages_mono [of ?dbq srv ?ex1 rts ?z] by (simp add: l1)
  have sub: "length (filter (\<lambda>rt. unique_key rt \<notin> ?ex2) rts)
      \<le> length (filter (\<lambda>rt. unique_key rt \<notin> ?ex1 \<and> page_of rt \<notin> set (pages db1)) rts)"
  proof (rule length_filter_mono)
    fix rt assume rt: "rt \<in> set rts" and n: "unique_key rt \<notin> ?ex2"
    have a: "unique_key rt \<notin> ?ex1"
    proof
      assume "unique_key rt \<in> ?ex1"
      then obtain p where "p \<in> set (pages db)" "page_key p = Some (unique_key rt)"
        unfolding existing_keys_iff by blast
      with mono have "unique_key rt \<in> ?ex2" unfolding existing_keys_iff by blast
      with n show False by simp
    qed
    have b: "page_of rt \<notin> set (pages db1)"
    proof
      assume "page_of rt \<in> set (pages db1)"
      moreover have "page_key (page_of rt) = Some (unique_key rt)"
        using ids rt by (simp add: page_key_page_of)
      ultimately have "unique_key rt \<in> ?ex2" unfolding existing_keys_iff by blast
      with n show False by simp
    qed
    from a b show "unique_key rt \<notin> ?ex1 \<and> page_of rt \<notin> set (pages db1)" by simp
  qed
  have t1: "created s1 + skipped s1 + errors s1 = length rts"
    using sync_loop_total [of srv ?ex1 rts ?z ?dbq] by (simp add: l1)
  have t2: "created s2 + skipped s2 + errors s2 = length rts"
    using sync_loop_total [of srv' ?ex2 rts ?z ?dbq1] by (simp add: l2)
  have k: "skipped s2 = length (filter (\<lambda>rt. unique_key rt \<in> ?ex2) rts)"
    using sync_loop_counts [of srv' ?ex2 rts ?z ?dbq1] by (simp add: l2)
  have "length (filter (\<lambda>rt. unique_key rt \<in> ?ex2) rts) + length (filter (\<lambda>rt. unique_key rt \<notin> ?ex2) rts) = length rts"
    using sum_length_filter_compl [of "\<lambda>rt. unique_key rt \<in> ?ex2" rts] by simp
  with t2 k have c2: "created s2 + errors s2 = length (filter (\<lambda>rt. unique_key rt \<notin> ?ex2) rts)"
    by linarith
  have a: "created s2 + errors s2 \<le> errors s1"
    using c2 sub e1 by linarith
  have b: "skipped s1 + created s1 \<le> skipped s2"
    using a t1 t2 by linarith
  have c: "errors s1 = 0 \<longrightarrow> created s2 = 0 \<and> skipped s2 = length rts"
    using a t2 by auto
  from a b c show ?thesis by blast
qed

text \<open>
  The claim as stated, for every round-trip set, fails in two ways. A round trip whose entry
  trade id is 0 is written with \<^verbatim>\<open>Entry Trade ID\<close> 0, which the truthiness test of
  \<^verbatim>\<open>get_existing_roundtrip_ids\<close> leaves out of the existing keys, so the second run creates
  it again. And a round trip whose create failed in the first run is created by the second
  run when the service answers then.
\<close>

theorem sync_rerun_counterexample:
  "sync_roundtrips srv_ok db0 [rt_zero] True
     = (Inr \<lparr>created = 1, skipped = 0, errors = 0\<rparr>, \<lparr>pages = [page_of rt_zero], requests = 2\<rparr>)
   \<and> sync_roundtrips srv_ok \<lparr>pages = [page_of rt_zero], requests = 2\<rparr> [rt_zero] True
     = (Inr \<lparr>created = 1, skipped = 0, errors = 0\<rparr>, \<lparr>pages = [page_of rt_zero, page_of rt_zero], requests = 4\<rparr>)
   \<and> sync_roundtrips (srv_fail_at 1) db0 [rt0] True
     = (Inr \<lparr>created = 0, skipped = 0, errors = 1\<rparr>, \<lparr>pages = [], requests = 2\<rparr>)
   \<and> sync_roundtrips (srv_fail_at 1) \<lparr>pages = [], requests = 2\<rparr> [rt0] True
     = (Inr \<lparr>created = 1, skipped = 0, errors = 0\<rparr>, \<lparr>pages = [page_of rt0], requests = 4\<rparr>)"
  by (simp add: sync_roundtrips_def get_existing_roundtrip_ids_def query_database_def db0_def
        create_roundtrip_entry_def srv_ok_def srv_fail_at_def page_key_rt_zero)

theorem sync_rerun_witness:
  "trade_id (entry rt0) \<noteq> 0 \<and> trade_id (exit rt0) \<noteq> 0
   \<and> sync_roundtrips (srv_fail_at 1) db0 [rt0, rt0] True
       = (Inr \<lparr>created = 1, skipped = 0, errors = 1\<rparr>, \<lparr>pages = [page_of rt0], requests = 3\<rparr>)
   \<and> sync_roundtrips (srv_fail_at 1) \<lparr>pages = [page_of rt0], requests = 3\<rparr> [rt0, rt0] True
       = (Inr \<lparr>created = 0, skipped = 2, errors = 0\<rparr>, \<lparr>pages = [page_of rt0], requests = 4\<rparr>)
   \<and> created \<lparr>created = 0, skipped = 2, errors = 0\<rparr> + errors \<lparr>created = 0, skipped = 2, errors = 0\<rparr>
       \<le> errors \<lparr>created = 1, skipped = 0, errors = 1\<rparr>"
proof -
  have i: "\<forall>rt \<in> set [rt0, rt0]. trade_id (entry rt) \<noteq> 0 \<and> trade_id (exit rt) \<noteq> 0"
    by (simp add: rt0_def)
  have a: "sync_roundtrips (srv_fail_at 1) db0 [rt0, rt0] True
       = (Inr \<lparr>created = 1, skipped = 0, errors = 1\<rparr>, \<lparr>pages = [page_of rt0], requests = 3\<rparr>)"
    by (simp add: sync_roundtrips_def get_existing_roundtrip_ids_def query_database_def db0_def
        create_roundtrip_entry_def srv_fail_at_def)
  have b: "sync_roundtrips (srv_fail_at 1) \<lparr>pages = [page_of rt0], requests = 3\<rparr> [rt0, rt0] True
       = (Inr \<lparr>created = 0, skipped = 2, errors = 0\<rparr>, \<lparr>pages = [page_of rt0], requests = 4\<rparr>)"
    by (simp add: sync_roundtrips_def get_existing_roundtrip_ids_def query_database_def
        create_roundtrip_entry_def srv_fail_at_def key_rt0 page_key_rt0)
  have n: "trade_id (entry rt0) \<noteq> 0 \<and> trade_id (exit rt0) \<noteq> 0"
    by (simp add: rt0_def)
  show ?thesis
    using n a b sync_rerun [OF i a b] by simp
qed

section \<open>Properties of the scheduler\<close>

lemma stop_clears_next_sync_time:
  "next_sync_time (mgr (stop s)) = None \<and> get_remaining_time (mgr (stop s)) now = ''--:--''"
  by (simp add: stop_def get_remaining_time_def)

lemma loop_step_AtFor_pos:
  "0 < k \<Longrightarrow> loop_step now m (AtFor k) =
     (if stop_event m then (m, Returned, False) else (m, AtSleep (k - 1), False))"
  by (cases k) simp_all

text \<open>
  C8. A call of \<^verbatim>\<open>start\<close> on a manager that is already running returns at once: the running
  flag, the interval, the next synchronisation time, the stop event, the thread object and
  the set of running loop threads are all what they were.
\<close>

theorem start_while_running_noop:
  "is_running (mgr s) \<Longrightarrow> start interval s = s"
  by (simp add: start_def)

theorem start_while_running_noop_witness:
  "is_running (mgr (start 1 init_scheduler))
   \<and> start 5 (start 1 init_scheduler) = start 1 init_scheduler"
proof -
  have r: "is_running (mgr (start 1 init_scheduler))"
    by (simp add: start_def init_scheduler_def)
  show ?thesis
    using r start_while_running_noop [OF r, of 5] by simp
qed

text \<open>
  C9. After \<^verbatim>\<open>stop()\<close> the next synchronisation time is meant to stay cleared. The loop
  thread breaks this: it tests the \<^verbatim>\<open>while\<close> condition and assigns \<^verbatim>\<open>next_sync_time\<close> in two
  steps, and a \<^verbatim>\<open>stop()\<close> between them is overwritten. In the schedule below the manager is
  stopped, the loop thread has returned, and one second later \<^verbatim>\<open>get_remaining_time\<close> still
  returns a countdown.
\<close>

theorem remaining_time_after_stop_race:
  "\<not> is_running (mgr (race_schedule 0))
   \<and> stop_event (mgr (race_schedule 0))
   \<and> threads (race_schedule 0) = [Returned]
   \<and> callbacks (race_schedule 0) = 0
   \<and> next_sync_time (mgr (race_schedule 0)) = Some 60000000
   \<and> get_remaining_time (mgr (race_schedule 0)) 1000000 = ''00:59''"
proof -
  have s: "race_schedule 0 =
      \<lparr>mgr = \<lparr>is_running = False, interval_minutes = 1, next_sync_time = Some 60000000,
               thread = Some 0, stop_event = True\<rparr>,
       threads = [Returned], callbacks = 0\<rparr>"
    by (simp add: race_schedule_def run_loop_step_def start_def stop_def init_scheduler_def
        loop_step_AtFor_pos)
  have f: "fmt_02d 0 = ''00''" "fmt_02d 59 = ''59''"
    by code_simp+
  show ?thesis
    by (simp add: s get_remaining_time_def f)
qed

section \<open>Properties of the matcher\<close>



lemma find_matching_entry_mset:
  "find_matching_entry q x = Some (m, q') \<Longrightarrow> mset q = add_mset m (mset q')"
  by (induction q arbitrary: q') (auto split: if_splits option.splits)

lemma take_entry_mset:
  assumes "q \<noteq> []" and "take_entry q x = (e, q')"
  shows "mset q = add_mset e (mset q')"
proof (cases "find_matching_entry q x")
  case None
  with assms have "e = hd q" "q' = tl q" by simp_all
  with assms(1) show ?thesis by (cases q) simp_all
next
  case (Some r)
  with assms have "find_matching_entry q x = Some (e, q')" by simp
  then show ?thesis by (rule find_matching_entry_mset)
qed

lemma create_roundtrip_legs:
  "create_roundtrip L rid cid e x = Inr rt \<Longrightarrow> entry rt = leg_of e \<and> exit rt = leg_of x"
  by (auto simp: create_roundtrip_def Let_def split: sum.splits option.splits)

lemma exits_loop_legs:
  "exits_loop L cid xs q rid T = Inr (q', rid', T') \<Longrightarrow>
     image_mset leg_of (mset xs) + closing_legs T = closing_legs T'
     \<and> image_mset leg_of (mset q) + image_mset entry (mset (roundtrips T))
         = image_mset leg_of (mset q') + image_mset entry (mset (roundtrips T'))
     \<and> open_positions T' = open_positions T"
proof (induction xs arbitrary: q rid T)
  case Nil
  then show ?case by simp
next
  case (Cons x xs)
  show ?case
  proof (cases "q = []")
    case True
    let ?T = "T\<lparr>unmatched_exits := unmatched_exits T @ [x]\<rparr>"
    from Cons.prems True have "exits_loop L cid xs q rid ?T = Inr (q', rid', T')" by simp
    from Cons.IH [OF this] show ?thesis by (simp add: closing_legs_def)
  next
    case False
    obtain e q0 where te: "take_entry q x = (e, q0)" by (cases "take_entry q x") blast
    from Cons.prems False te obtain rt where
      cr: "create_roundtrip L (Suc rid) cid e x = Inr rt" and
      rec: "exits_loop L cid xs q0 (Suc rid) (T\<lparr>roundtrips := roundtrips T @ [rt]\<rparr>) = Inr (q', rid', T')"
      by (cases "create_roundtrip L (Suc rid) cid e x") (simp_all del: take_entry.simps)
    have legs: "entry rt = leg_of e" "exit rt = leg_of x"
      using create_roundtrip_legs [OF cr] by simp_all
    have q: "mset q = add_mset e (mset q0)"
      using take_entry_mset [OF False te] .
    from Cons.IH [OF rec] show ?thesis by (simp add: closing_legs_def legs q)
  qed
qed

lemma add_trade_mset:
  "mset (concat (map snd (add_trade t gs))) = add_mset t (mset (concat (map snd gs)))"
  by (induction gs) auto

lemma trades_by_contract_aux:
  "mset (concat (map snd (foldl (\<lambda>groups t. add_trade t groups) gs trades)))
     = mset trades + mset (concat (map snd gs))"
  by (induction trades arbitrary: gs) (simp_all add: add_trade_mset)

lemma trades_by_contract_mset:
  "mset (concat (map snd (trades_by_contract trades))) = mset trades"
  by (simp add: trades_by_contract_def trades_by_contract_aux)

lemma contracts_loop_legs:
  "contracts_loop L gs rid T = Inr (rid', T') \<Longrightarrow>
     image_mset leg_of (mset (filter (\<lambda>t. \<not> is_entry t) (concat (map snd gs)))) + closing_legs T
       = closing_legs T'
     \<and> image_mset leg_of (mset (filter is_entry (concat (map snd gs)))) + opening_legs T
       = opening_legs T'"
proof (induction gs arbitrary: rid T)
  case Nil
  then show ?case by simp
next
  case (Cons g gs)
  obtain cid ts where g: "g = (cid, ts)" by (cases g) blast
  let ?s = "sort_key creationTimestamp ts"
  from Cons.prems g obtain q r T1 where
    ex: "exits_loop L cid (filter (\<lambda>t. \<not> is_entry t) ?s) (filter is_entry ?s) rid T = Inr (q, r, T1)" and
    rec: "contracts_loop L gs r (T1\<lparr>open_positions := open_positions T1 @ q\<rparr>) = Inr (rid', T')"
    by (auto simp: Let_def split: sum.splits)
  let ?T2 = "T1\<lparr>open_positions := open_positions T1 @ q\<rparr>"
  let ?X = "\<lambda>l. image_mset leg_of (mset (filter (\<lambda>t. \<not> is_entry t) l))"
  let ?E = "\<lambda>l. image_mset leg_of (mset (filter is_entry l))"
  have s1: "?X ?s = ?X ts" and s2: "?E ?s = ?E ts"
    by (simp_all add: mset_filter)
  from exits_loop_legs [OF ex]
  have a1: "?X ?s + closing_legs T = closing_legs T1"
    and a2: "?E ?s + image_mset entry (mset (roundtrips T))
             = image_mset leg_of (mset q) + image_mset entry (mset (roundtrips T1))"
    and a3: "open_positions T1 = open_positions T"
    by blast+
  from Cons.IH [OF rec]
  have b1: "?X (concat (map snd gs)) + closing_legs ?T2 = closing_legs T'"
    and b2: "?E (concat (map snd gs)) + opening_legs ?T2 = opening_legs T'"
    by blast+
  have c1: "closing_legs ?T2 = ?X ts + closing_legs T"
    using a1 by (simp add: closing_legs_def s1)
  have "opening_legs ?T2
      = (image_mset leg_of (mset q) + image_mset entry (mset (roundtrips T1)))
        + image_mset leg_of (mset (open_positions T))"
    by (simp add: opening_legs_def a3)
  also have "\<dots> = (?E ts + image_mset entry (mset (roundtrips T)))
        + image_mset leg_of (mset (open_positions T))"
    using a2 by (simp only: s2)
  also have "\<dots> = ?E ts + opening_legs T"
    by (simp add: opening_legs_def)
  finally have c2: "opening_legs ?T2 = ?E ts + opening_legs T" .
  have x: "?X (concat (map snd (g # gs))) = ?X ts + ?X (concat (map snd gs))"
    by (simp add: g)
  have e: "?E (concat (map snd (g # gs))) = ?E ts + ?E (concat (map snd gs))"
    by (simp add: g)
  have g1: "?X (concat (map snd (g # gs))) + closing_legs T = closing_legs T'"
    unfolding x using b1 unfolding c1 by (simp only: ac_simps)
  have g2: "?E (concat (map snd (g # gs))) + opening_legs T = opening_legs T'"
    unfolding e using b2 unfolding c2 by (simp only: ac_simps)
  from g1 g2 show ?case by blast
qed

lemma create_roundtrip_ok:
  assumes "parses_as L a e" and "parses_as L a x" and "\<not> is_entry x"
  shows "\<exists>rt. create_roundtrip L rid cid e x = Inr rt"
proof -
  from assms(1) obtain d1 where p1: "parse_timestamp L (creationTimestamp e) = Inr d1"
    and k1: "(\<exists>n. d1 = Aware n) = a"
    by (cases "parse_timestamp L (creationTimestamp e)")
       (auto simp: parses_as_def split: datetime.splits)
  from assms(2) obtain d2 where p2: "parse_timestamp L (creationTimestamp x) = Inr d2"
    and k2: "(\<exists>n. d2 = Aware n) = a"
    by (cases "parse_timestamp L (creationTimestamp x)")
       (auto simp: parses_as_def split: datetime.splits)
  from k1 k2 obtain secs where d: "duration_between d1 d2 = Inr secs"
    by (cases d1; cases d2) auto
  from assms(3) obtain p where pl: "profitAndLoss x = Some p"
    by (auto simp: is_entry_def)
  show ?thesis
    by (simp add: create_roundtrip_def Let_def p1 p2 d pl)
qed

lemma take_entry_set:
  assumes "q \<noteq> []" and "take_entry q x = (e, q')"
  shows "e \<in> set q \<and> set q' \<subseteq> set q"
proof -
  have "mset q = add_mset e (mset q')" using take_entry_mset [OF assms] .
  then have "set_mset (mset q) = set_mset (add_mset e (mset q'))" by simp
  then show ?thesis by auto
qed

lemma exits_loop_ok:
  assumes "\<forall>t \<in> set xs \<union> set q. parses_as L a t" and "\<forall>x \<in> set xs. \<not> is_entry x"
  shows "\<exists>r. exits_loop L cid xs q rid T = Inr r"
  using assms
proof (induction xs arbitrary: q rid T)
  case Nil
  show ?case by simp
next
  case (Cons x xs)
  show ?case
  proof (cases "q = []")
    case True
    have "\<exists>r. exits_loop L cid xs q rid (T\<lparr>unmatched_exits := unmatched_exits T @ [x]\<rparr>) = Inr r"
      using Cons.prems by (intro Cons.IH) auto
    with True show ?thesis by simp
  next
    case False
    obtain e q0 where te: "take_entry q x = (e, q0)" by (cases "take_entry q x") blast
    have mem: "e \<in> set q" "set q0 \<subseteq> set q"
      using take_entry_set [OF False te] by simp_all
    have "parses_as L a e" "parses_as L a x" "\<not> is_entry x"
      using Cons.prems mem by auto
    then obtain rt where cr: "create_roundtrip L (Suc rid) cid e x = Inr rt"
      using create_roundtrip_ok by blast
    have "\<exists>r. exits_loop L cid xs q0 (Suc rid) (T\<lparr>roundtrips := roundtrips T @ [rt]\<rparr>) = Inr r"
      using Cons.prems mem by (intro Cons.IH) auto
    then show ?thesis using False te cr by (simp del: take_entry.simps)
  qed
qed

lemma contracts_loop_ok:
  assumes "\<forall>t \<in> set (concat (map snd gs)). parses_as L a t"
  shows "\<exists>r. contracts_loop L gs rid T = Inr r"
  using assms
proof (induction gs arbitrary: rid T)
  case Nil
  show ?case by simp
next
  case (Cons g gs)
  obtain cid ts where g: "g = (cid, ts)" by (cases g) blast
  let ?s = "sort_key creationTimestamp ts"
  have "\<exists>r. exits_loop L cid (filter (\<lambda>t. \<not> is_entry t) ?s) (filter is_entry ?s) rid T = Inr r"
    using Cons.prems g by (intro exits_loop_ok [where a = a]) auto
  then obtain q r T1 where
    ex: "exits_loop L cid (filter (\<lambda>t. \<not> is_entry t) ?s) (filter is_entry ?s) rid T = Inr (q, r, T1)"
    by (metis prod_cases3)
  have "\<exists>r'. contracts_loop L gs r (T1\<lparr>open_positions := open_positions T1 @ q\<rparr>) = Inr r'"
    using Cons.prems by (intro Cons.IH) auto
  then show ?case by (simp add: g Let_def ex)
qed

text \<open>
  C1. Whenever \<^verbatim>\<open>transform\<close> returns, the closing legs of the input (trades with a
  \<^verbatim>\<open>profitAndLoss\<close>) are, counted with multiplicity, exactly the exit legs of the round trips
  together with the unmatched exits, and the opening legs are exactly the entry legs of the
  round trips together with the open positions: every leg is in one place and in one only.
  And \<^verbatim>\<open>transform\<close> does return when the timestamps of all trades parse, all to aware or all
  to naive values.
\<close>

theorem transform_partitions_legs:
  "(\<forall>T. transform L trades = Inr T \<longrightarrow>
       image_mset leg_of (mset (filter (\<lambda>t. \<not> is_entry t) trades)) = closing_legs T
     \<and> image_mset leg_of (mset (filter is_entry trades)) = opening_legs T)
   \<and> ((\<forall>t \<in> set trades. parses_as L aware t) \<longrightarrow> (\<exists>T. transform L trades = Inr T))"
proof (intro conjI allI impI)
  let ?T0 = "\<lparr>roundtrips = [], open_positions = [], unmatched_exits = []\<rparr>"
  let ?gs = "trades_by_contract trades"
  have ms: "mset (concat (map snd ?gs)) = mset trades"
    by (rule trades_by_contract_mset)
  {
    fix T assume t: "transform L trades = Inr T"
    then obtain rid T1 where cl: "contracts_loop L ?gs 0 ?T0 = Inr (rid, T1)"
      and T: "T = T1\<lparr>roundtrips := sort_key (\<lambda>rt. timestamp (exit rt)) (roundtrips T1)\<rparr>"
      by (auto simp: transform_def split: sum.splits)
    have c: "closing_legs T = closing_legs T1" and o: "opening_legs T = opening_legs T1"
      by (simp_all add: T closing_legs_def opening_legs_def)
    have z: "closing_legs ?T0 = {#}" "opening_legs ?T0 = {#}"
      by (simp_all add: closing_legs_def opening_legs_def)
    have f1: "mset (filter (\<lambda>t. \<not> is_entry t) (concat (map snd ?gs))) = mset (filter (\<lambda>t. \<not> is_entry t) trades)"
      by (simp only: mset_filter ms)
    have f2: "mset (filter is_entry (concat (map snd ?gs))) = mset (filter is_entry trades)"
      by (simp only: mset_filter ms)
    from contracts_loop_legs [OF cl]
    show "image_mset leg_of (mset (filter (\<lambda>t. \<not> is_entry t) trades)) = closing_legs T"
      and "image_mset leg_of (mset (filter is_entry trades)) = opening_legs T"
      by (simp_all only: f1 f2 z c o add_0_right)
  }
  assume p: "\<forall>t \<in> set trades. parses_as L aware t"
  have "set (concat (map snd ?gs)) = set trades"
    using ms by (metis set_mset_mset)
  with p have "\<forall>t \<in> set (concat (map snd ?gs)). parses_as L aware t" by simp
  from contracts_loop_ok [OF this] obtain r where "contracts_loop L ?gs 0 ?T0 = Inr r"
    by blast
  then show "\<exists>T. transform L trades = Inr T"
    by (cases r) (simp add: transform_def)
qed

theorem transform_partitions_legs_witness:
  "parses_as sample_lib True exit2 \<and> parses_as sample_lib True entry2
   \<and> parses_as sample_lib True exit1 \<and> parses_as sample_lib True entry1
   \<and> transform sample_lib [exit2, entry2, exit1, entry1]
       = Inr \<lparr>roundtrips = [rt0], open_positions = [entry2], unmatched_exits = [exit2]\<rparr>
   \<and> image_mset leg_of (mset (filter (\<lambda>t. \<not> is_entry t) [exit2, entry2, exit1, entry1]))
       = closing_legs \<lparr>roundtrips = [rt0], open_positions = [entry2], unmatched_exits = [exit2]\<rparr>
   \<and> image_mset leg_of (mset (filter is_entry [exit2, entry2, exit1, entry1]))
       = opening_legs \<lparr>roundtrips = [rt0], open_positions = [entry2], unmatched_exits = [exit2]\<rparr>"
proof -
  have p: "parses_as sample_lib True exit2" "parses_as sample_lib True entry2"
    "parses_as sample_lib True exit1" "parses_as sample_lib True entry1"
    by code_simp+
  have run: "transform sample_lib [exit2, entry2, exit1, entry1]
       = Inr \<lparr>roundtrips = [rt0], open_positions = [entry2], unmatched_exits = [exit2]\<rparr>"
    by code_simp
  show ?thesis
    using p run transform_partitions_legs [of sample_lib "[exit2, entry2, exit1, entry1]" True]
    by simp
qed











section \<open>Properties of the aggregator\<close>




text \<open>
  C5 (as amended). For a transformer without round trips \<^verbatim>\<open>get_statistics\<close> returns the
  empty dictionary: a result without any field, not a structure of zeros.
\<close>

theorem get_statistics_empty:
  "roundtrips T = [] \<Longrightarrow> get_statistics T = Inr None"
  by (simp add: get_statistics_def)

text \<open>
  The claim as stated asks for the all-zero statistics; the guard at the head of
  \<^verbatim>\<open>get_statistics\<close> returns the empty dictionary instead.
\<close>

theorem get_statistics_empty_counterexample:
  "get_statistics empty_transformer = Inr None
   \<and> get_statistics empty_transformer \<noteq> Inr (Some zero_statistics)"
  by (simp add: get_statistics_def empty_transformer_def)

theorem get_statistics_empty_witness:
  "roundtrips empty_transformer = [] \<and> get_statistics empty_transformer = Inr None"
proof -
  have e: "roundtrips empty_transformer = []"
    by (simp add: empty_transformer_def)
  show ?thesis
    using e get_statistics_empty [OF e] by simp
qed



end
